theory Spec2Isabelle
  imports Main
begin

section \<open>JavaScript strings\<close>

text \<open>
  A JavaScript string is modelled as a \<^typ>\<open>string\<close> holding its UTF-8 bytes. Every
  separator the two scripts look for (\<open>@\<close>, \<open>/\<close>, \<open>.\<close>) is ASCII, so searching and
  splitting on bytes cuts a string where searching on UTF-16 code units does. The
  regular expression atom \<open>.\<close> (no \<open>s\<close> flag) rejects the four line terminators
  LF, CR, U+2028 and U+2029; the last two are the byte triples E2 80 A8 and E2 80 A9.
\<close>

definition startsWith :: "string \<Rightarrow> string \<Rightarrow> bool" where
  "startsWith s p = (take (length p) s = p)"

definition endsWith :: "string \<Rightarrow> string \<Rightarrow> bool" where
  "endsWith s p = (length p \<le> length s \<and> drop (length s - length p) s = p)"

text \<open>\<open>s.split(c)\<close> for a one-character separator: never the empty array.\<close>

fun split :: "string \<Rightarrow> char \<Rightarrow> string list" where
  "split [] c = [[]]"
| "split (x # xs) c =
     (if x = c then [] # split xs c
      else (case split xs c of [] \<Rightarrow> [[x]] | p # ps \<Rightarrow> (x # p) # ps))"

text \<open>\<open>a[i]\<close> on an array: \<open>undefined\<close> (here \<open>None\<close>) out of range.\<close>

definition at_index :: "'a list \<Rightarrow> nat \<Rightarrow> 'a option" where
  "at_index xs i = (if i < length xs then Some (xs ! i) else None)"

text \<open>\<open>a.pop()\<close> read as a value: the last element, \<open>undefined\<close> on the empty array.\<close>

definition pop :: "'a list \<Rightarrow> 'a option" where
  "pop xs = (case xs of [] \<Rightarrow> None | _ # _ \<Rightarrow> Some (last xs))"

text \<open>\<open>s.lastIndexOf(c)\<close>: the index of the last occurrence, \<open>-1\<close> when there is none.\<close>

definition lastIndexOf :: "string \<Rightarrow> char \<Rightarrow> int" where
  "lastIndexOf s c =
     (if c \<in> set s then int (length s) - 1 - int (length (takeWhile (\<lambda>x. x \<noteq> c) (rev s)))
      else - 1)"

text \<open>\<open>s.substring(a, b)\<close> and \<open>s.substring(a)\<close> for indices that are not negative.\<close>

definition substring :: "string \<Rightarrow> nat \<Rightarrow> nat \<Rightarrow> string" where
  "substring s a b = take (b - a) (drop a s)"

definition substring_from :: "string \<Rightarrow> nat \<Rightarrow> string" where
  "substring_from s a = drop a s"

text \<open>\<open>s.replace(pat, rep)\<close> with a string pattern: the first occurrence only.\<close>

fun replace :: "string \<Rightarrow> string \<Rightarrow> string \<Rightarrow> string" where
  "replace [] pat rep = (if pat = [] then rep else [])"
| "replace (x # xs) pat rep =
     (if startsWith (x # xs) pat then rep @ drop (length pat) (x # xs)
      else x # replace xs pat rep)"

text \<open>
  A string, or \<open>undefined\<close> or \<open>null\<close> in its place, used as a condition: true when it is a
  string that is not empty.
\<close>

definition truthy_string :: "string option \<Rightarrow> bool" where
  "truthy_string v = (case v of None \<Rightarrow> False | Some s \<Rightarrow> s \<noteq> [])"

text \<open>
  \<open>s.toLowerCase()\<close> on the ASCII letters. No character outside ASCII is mapped to one of
  the letters of \<open>script\<close>, the only word a lowered string is compared with.
\<close>

definition toLowerCase :: "string \<Rightarrow> string" where
  "toLowerCase s =
     map (\<lambda>c. case map_of (zip ''ABCDEFGHIJKLMNOPQRSTUVWXYZ'' ''abcdefghijklmnopqrstuvwxyz'') c of
                 Some d \<Rightarrow> d
               | None \<Rightarrow> c) s"

text \<open>
  Lua's \<open>s:gsub(pat, rep)\<close> for a pattern that matches one fixed, non-empty text: every
  occurrence, left to right. The counter is the number of characters of a match still
  to be skipped.
\<close>

fun gsub_from :: "nat \<Rightarrow> string \<Rightarrow> string \<Rightarrow> string \<Rightarrow> string" where
  "gsub_from k [] pat rep = []"
| "gsub_from (Suc k) (x # xs) pat rep = gsub_from k xs pat rep"
| "gsub_from 0 (x # xs) pat rep =
     (if startsWith (x # xs) pat then rep @ gsub_from (length pat - 1) xs pat rep
      else x # gsub_from 0 xs pat rep)"

definition gsub :: "string \<Rightarrow> string \<Rightarrow> string \<Rightarrow> string" where
  "gsub s pat rep = gsub_from 0 s pat rep"

fun has_line_terminator :: "string \<Rightarrow> bool" where
  "has_line_terminator [] = False"
| "has_line_terminator (c # cs) =
     (c = CHR 0x0A \<or> c = CHR 0x0D
      \<or> (c = CHR 0xE2 \<and> (take 2 cs = [CHR 0x80, CHR 0xA8] \<or> take 2 cs = [CHR 0x80, CHR 0xA9]))
      \<or> has_line_terminator cs)"

section \<open>The specifier parser of \<open>ojs-offline-resolver.js\<close>\<close>

record package_identifier =
  name :: string
  version :: "string option"
  path :: string

text \<open>
  The tail \<open>@([^/]+)(?:\/(.+))?$\<close> shared by both patterns, read after the \<open>@\<close>: the
  version runs to the first \<open>/\<close> or to the end, and what follows the \<open>/\<close> must be
  one or more characters without a line terminator. The result is the pair of
  groups 2 and 3, group 3 already replaced by \<open>''\<close> when it did not take part.
\<close>

definition version_and_path :: "string \<Rightarrow> (string \<times> string) option" where
  "version_and_path r =
     (let v = takeWhile (\<lambda>x. x \<noteq> CHR ''/'') r; r' = dropWhile (\<lambda>x. x \<noteq> CHR ''/'') r
      in if v = [] then None
         else (case r' of
                 [] \<Rightarrow> Some (v, [])
               | _ # p \<Rightarrow> if p \<noteq> [] \<and> \<not> has_line_terminator p then Some (v, p) else None))"

text \<open>\<open>specifier.match(/^(@[^/]+\/[^@]+)@([^/]+)(?:\/(.+))?$/)\<close>: groups 1, 2 and 3.\<close>

definition scopedMatch :: "string \<Rightarrow> (string \<times> string \<times> string) option" where
  "scopedMatch specifier =
     (case specifier of
        [] \<Rightarrow> None
      | c # r \<Rightarrow>
          if c \<noteq> CHR ''@'' then None
          else
            (let scope = takeWhile (\<lambda>x. x \<noteq> CHR ''/'') r;
                 r1 = dropWhile (\<lambda>x. x \<noteq> CHR ''/'') r
             in if scope = [] then None
                else (case r1 of
                        [] \<Rightarrow> None
                      | _ # r2 \<Rightarrow>
                          (let nm = takeWhile (\<lambda>x. x \<noteq> CHR ''@'') r2;
                               r3 = dropWhile (\<lambda>x. x \<noteq> CHR ''@'') r2
                           in if nm = [] then None
                              else (case r3 of
                                      [] \<Rightarrow> None
                                    | _ # r4 \<Rightarrow>
                                        (case version_and_path r4 of
                                           None \<Rightarrow> None
                                         | Some (v, p) \<Rightarrow>
                                             Some (CHR ''@'' # scope @ CHR ''/'' # nm, v, p)))))))"

text \<open>\<open>specifier.match(/^([^@]+)@([^/]+)(?:\/(.+))?$/)\<close>: groups 1, 2 and 3.\<close>

definition regularMatch :: "string \<Rightarrow> (string \<times> string \<times> string) option" where
  "regularMatch specifier =
     (let nm = takeWhile (\<lambda>x. x \<noteq> CHR ''@'') specifier;
          r = dropWhile (\<lambda>x. x \<noteq> CHR ''@'') specifier
      in if nm = [] then None
         else (case r of
                 [] \<Rightarrow> None
               | _ # r1 \<Rightarrow>
                   (case version_and_path r1 of
                      None \<Rightarrow> None
                    | Some (v, p) \<Rightarrow> Some (nm, v, p))))"

definition parsePackageIdentifier :: "string \<Rightarrow> package_identifier" where
  "parsePackageIdentifier specifier =
     (case scopedMatch specifier of
        Some (g1, g2, g3) \<Rightarrow> \<lparr>name = g1, version = Some g2, path = g3\<rparr>
      | None \<Rightarrow>
          (case regularMatch specifier of
             Some (g1, g2, g3) \<Rightarrow> \<lparr>name = g1, version = Some g2, path = g3\<rparr>
           | None \<Rightarrow> \<lparr>name = specifier, version = None, path = []\<rparr>))"

text \<open>
  The languages of the two patterns, written as the decompositions the regular
  expressions denote. Group 3 is \<open>None\<close> when the optional \<open>(?:\/(.+))?\<close> is skipped.
\<close>

definition tail_form :: "string \<Rightarrow> string \<Rightarrow> string option \<Rightarrow> bool" where
  "tail_form r g2 g3 =
     (g2 \<noteq> [] \<and> CHR ''/'' \<notin> set g2 \<and>
      (case g3 of
         None \<Rightarrow> r = g2
       | Some p \<Rightarrow> p \<noteq> [] \<and> \<not> has_line_terminator p \<and> r = g2 @ CHR ''/'' # p))"

definition scoped_form :: "string \<Rightarrow> string \<Rightarrow> string \<Rightarrow> string option \<Rightarrow> bool" where
  "scoped_form specifier g1 g2 g3 =
     (\<exists>scope nm r.
        g1 = CHR ''@'' # scope @ CHR ''/'' # nm \<and>
        scope \<noteq> [] \<and> CHR ''/'' \<notin> set scope \<and>
        nm \<noteq> [] \<and> CHR ''@'' \<notin> set nm \<and>
        specifier = g1 @ CHR ''@'' # r \<and> tail_form r g2 g3)"

definition unscoped_form :: "string \<Rightarrow> string \<Rightarrow> string \<Rightarrow> string option \<Rightarrow> bool" where
  "unscoped_form specifier g1 g2 g3 =
     (\<exists>r. g1 \<noteq> [] \<and> CHR ''@'' \<notin> set g1 \<and>
          specifier = g1 @ CHR ''@'' # r \<and> tail_form r g2 g3)"

text \<open>\<open>v || ''\<close>, also the string held by a value known to be one.\<close>

definition or_empty :: "string option \<Rightarrow> string" where
  "or_empty g = (case g of None \<Rightarrow> [] | Some p \<Rightarrow> p)"

section \<open>Plain objects used as maps\<close>

text \<open>
  Both scripts keep the dependency map in a plain object and read it with \<open>m[k]\<close>, so
  a key that is not an own property is looked up in \<open>Object.prototype\<close>. A value read
  from the map is therefore a string, or the value of one of the twelve properties
  every plain object inherits (a function, or the prototype itself for \<open>__proto__\<close>):
  never a string and always true in a condition. The page is taken not to have added
  properties to \<open>Object.prototype\<close>.
\<close>

datatype js_value = JString string | Builtin string

definition Object_prototype_names :: "string list" where
  "Object_prototype_names =
     [''constructor'', ''hasOwnProperty'', ''isPrototypeOf'', ''propertyIsEnumerable'',
      ''toLocaleString'', ''toString'', ''valueOf'', ''__proto__'',
      ''__defineGetter__'', ''__defineSetter__'', ''__lookupGetter__'', ''__lookupSetter__'']"

definition inherited :: "string \<Rightarrow> bool" where
  "inherited k = (k \<in> set Object_prototype_names)"

text \<open>
  The dependency map is the JSON object of \<open>dependency-map.json\<close>: its own entries,
  listed in the order in which \<open>for (const key in ...)\<close> enumerates them, with string
  values. \<open>own m k\<close> is the own property \<open>k\<close>, \<open>lookup m k\<close> is \<open>m[k]\<close>; \<open>None\<close> stands for
  \<open>undefined\<close>. The inherited properties are not enumerable.
\<close>

type_synonym depmap = "(string \<times> string) list"

definition own :: "depmap \<Rightarrow> string \<Rightarrow> string option" where
  "own m k = map_of m k"

definition lookup :: "depmap \<Rightarrow> string \<Rightarrow> js_value option" where
  "lookup m k =
     (case own m k of
        Some v \<Rightarrow> Some (JString v)
      | None \<Rightarrow> if inherited k then Some (Builtin k) else None)"

definition own_keys :: "depmap \<Rightarrow> string list" where
  "own_keys m = map fst m"

text \<open>A value read from a map, used as a condition.\<close>

definition truthy :: "js_value option \<Rightarrow> bool" where
  "truthy v =
     (case v of
        None \<Rightarrow> False
      | Some (JString s) \<Rightarrow> s \<noteq> []
      | Some (Builtin b) \<Rightarrow> True)"

section \<open>\<open>findLocalPath\<close> of \<open>ojs-offline-resolver.js\<close>\<close>

text \<open>The loop \<open>for (const key in dependencyMap) if (key.startsWith(namePrefix)) return dependencyMap[key]\<close>.\<close>

fun scan_keys :: "depmap \<Rightarrow> string list \<Rightarrow> string \<Rightarrow> js_value option" where
  "scan_keys dependencyMap [] namePrefix = None"
| "scan_keys dependencyMap (key # ks) namePrefix =
     (if startsWith key namePrefix then lookup dependencyMap key
      else scan_keys dependencyMap ks namePrefix)"

text \<open>The body of \<open>findLocalPath\<close> while \<open>dependencyMap\<close> holds an object; \<open>None\<close> is \<open>null\<close>.\<close>

definition findLocalPath :: "depmap \<Rightarrow> string \<Rightarrow> js_value option" where
  "findLocalPath dependencyMap specifier =
     (if truthy (lookup dependencyMap specifier) then lookup dependencyMap specifier
      else
        (let parsed = parsePackageIdentifier specifier;
             fullKey =
               (if truthy_string (version parsed)
                then name parsed @ ''@'' @ or_empty (version parsed)
                       @ (if path parsed \<noteq> [] then ''/'' @ path parsed else [])
                else specifier)
         in if truthy (lookup dependencyMap fullKey) then lookup dependencyMap fullKey
            else
              (let baseKey =
                     (if truthy_string (version parsed)
                      then name parsed @ ''@'' @ or_empty (version parsed)
                      else name parsed)
               in if truthy (lookup dependencyMap baseKey) then lookup dependencyMap baseKey
                  else scan_keys dependencyMap (own_keys dependencyMap) (name parsed @ ''@''))))"

section \<open>The inline interceptor script of \<open>ojs-offline.lua\<close>\<close>

definition CDN_JSDELIVR :: string where
  "CDN_JSDELIVR = ''https://cdn.jsdelivr.net/npm/''"

definition CDN_OBSERVABLE :: string where
  "CDN_OBSERVABLE = ''https://cdn.observableusercontent.com/npm/''"

definition versionAliases :: depmap where
  "versionAliases =
     [(''d3@7'', ''d3@7.8.5''),
      (''d3@6'', ''d3@7.8.5''),
      (''lodash@4'', ''lodash@4.17.21''),
      (''htl@0'', ''htl@0.3.1''),
      (''@observablehq/inputs@0'', ''@observablehq/inputs@0.10.6''),
      (''@observablehq/plot@0'', ''@observablehq/plot@0.6.11''),
      (''vega@5'', ''vega@5.22.1''),
      (''vega-lite@5'', ''vega-lite@5.6.0'')]"

text \<open>
  \<open>specifier.match(/^(@?[^@\/]+(?:\/[^@\/]+)?)/)\<close>, group 1: an optional \<open>@\<close>, the longest
  run of characters other than \<open>@\<close> and \<open>/\<close> (at least one), and, when a \<open>/\<close> and one
  more such character follow, that \<open>/\<close> and the longest run after it.
\<close>

definition bareMatch :: "string \<Rightarrow> string option" where
  "bareMatch specifier =
     (let plain = (\<lambda>x. x \<noteq> CHR ''@'' \<and> x \<noteq> CHR ''/'');
          at = (case specifier of [] \<Rightarrow> [] | c # _ \<Rightarrow> if c = CHR ''@'' then [c] else []);
          r = drop (length at) specifier;
          seg1 = takeWhile plain r;
          r1 = dropWhile plain r
      in if seg1 = [] then None
         else (case r1 of
                 [] \<Rightarrow> Some (at @ seg1)
               | c # r2 \<Rightarrow>
                   if c = CHR ''/'' \<and> takeWhile plain r2 \<noteq> []
                   then Some (at @ seg1 @ c # takeWhile plain r2)
                   else Some (at @ seg1)))"

text \<open>The loop \<open>for (const key in depMap) if (key.startsWith(pkgName + '@') || key === pkgName) return depMap[key]\<close>.\<close>

fun inline_scan_keys :: "depmap \<Rightarrow> string list \<Rightarrow> string \<Rightarrow> js_value option" where
  "inline_scan_keys depMap [] pkgName = None"
| "inline_scan_keys depMap (key # ks) pkgName =
     (if startsWith key (pkgName @ ''@'') \<or> key = pkgName then lookup depMap key
      else inline_scan_keys depMap ks pkgName)"

text \<open>
  The branch \<open>// Try version alias\<close>: \<open>None\<close> when it falls through to the next branch.
  \<open>split\<close> never returns the empty array, so \<open>[0]\<close> is its head. \<open>aliasKey\<close> holds an
  \<open>@\<close> and no inherited property name does, so \<open>versionAliases[aliasKey]\<close> is a string
  of the table or \<open>undefined\<close>; the case of an inherited value cannot be reached.
\<close>

definition alias_branch :: "depmap \<Rightarrow> string \<Rightarrow> js_value option" where
  "alias_branch depMap specifier =
     (let atIndex = lastIndexOf specifier CHR ''@''
      in if atIndex > 0 then
           (let name = substring specifier 0 (nat atIndex);
                version = substring_from specifier (nat atIndex + 1);
                majorVersion = hd (split version CHR ''.'');
                aliasKey = name @ ''@'' @ majorVersion
            in if truthy (lookup versionAliases aliasKey) then
                 (case lookup versionAliases aliasKey of
                    Some (JString aliased) \<Rightarrow>
                      if truthy (lookup depMap aliased) then lookup depMap aliased else None
                  | Some (Builtin b) \<Rightarrow> None
                  | None \<Rightarrow> None)
               else None)
         else None)"

text \<open>The branch \<open>// Try without version (bare package name)\<close>.\<close>

definition bare_branch :: "depmap \<Rightarrow> string \<Rightarrow> js_value option" where
  "bare_branch depMap specifier =
     (case bareMatch specifier of
        None \<Rightarrow> None
      | Some bare \<Rightarrow> if truthy (lookup depMap bare) then lookup depMap bare else None)"

text \<open>\<open>specifier.split('@')[0] || specifier.split('/')[0]\<close>.\<close>

definition pkgName_of :: "string \<Rightarrow> string" where
  "pkgName_of specifier =
     (if hd (split specifier CHR ''@'') \<noteq> [] then hd (split specifier CHR ''@'')
      else hd (split specifier CHR ''/''))"

definition inline_findLocalPath :: "depmap \<Rightarrow> string \<Rightarrow> js_value option" where
  "inline_findLocalPath depMap specifier =
     (if truthy (lookup depMap specifier) then lookup depMap specifier
      else
        (case alias_branch depMap specifier of
           Some v \<Rightarrow> Some v
         | None \<Rightarrow>
             (case bare_branch depMap specifier of
                Some v \<Rightarrow> Some v
              | None \<Rightarrow> inline_scan_keys depMap (own_keys depMap) (pkgName_of specifier))))"

text \<open>The three kinds of value \<open>cdnToLocal\<close> returns.\<close>

datatype cdn_result = IsPackageJson string | LocalPath js_value | Null

text \<open>\<open>cdnToLocal\<close> on a string.\<close>

definition cdnToLocal :: "depmap \<Rightarrow> string \<Rightarrow> cdn_result" where
  "cdnToLocal depMap url =
     (let pkg =
            (if startsWith url CDN_JSDELIVR then Some (drop (length CDN_JSDELIVR) url)
             else if startsWith url CDN_OBSERVABLE then Some (drop (length CDN_OBSERVABLE) url)
             else None)
      in if truthy_string pkg then
           (if endsWith (or_empty pkg) ''/package.json''
            then IsPackageJson (replace (or_empty pkg) ''/package.json'' [])
            else
              (case inline_findLocalPath depMap (or_empty pkg) of
                 None \<Rightarrow> Null
               | Some localPath \<Rightarrow> if truthy (Some localPath) then LocalPath localPath else Null))
         else Null)"

datatype js_error =
    AssignmentToConstant    \<comment> \<open>TypeError: assignment to a \<open>const\<close> binding\<close>
  | FetchRejected           \<comment> \<open>the promise of \<open>fetch\<close> rejects\<close>
  | JsonRejected            \<comment> \<open>the promise of \<open>response.json()\<close> rejects\<close>
  | PropertyOfNull          \<comment> \<open>TypeError: a property or the keys of \<open>null\<close> are read\<close>
  | NotAFunction            \<comment> \<open>TypeError: a method the value does not have is called\<close>
  | CannotRedefineProperty  \<comment> \<open>TypeError of \<open>Object.defineProperty\<close>\<close>

text \<open>
  A value a caller hands to a DOM primitive where a string is expected: a string, or a
  value that is not a string and has no string methods (\<open>null\<close>, a \<open>URL\<close> object, a
  \<open>TrustedScriptURL\<close>), with the text the native primitive converts it to.
  \<open>cdnToLocal\<close> starts with \<open>url.startsWith(...)\<close>, which throws on such a value.
\<close>

datatype raw_value = StringValue string | ObjectValue string

definition cdnToLocal_raw :: "depmap \<Rightarrow> raw_value \<Rightarrow> js_error + cdn_result" where
  "cdnToLocal_raw depMap value =
     (case value of
        StringValue url \<Rightarrow> Inr (cdnToLocal depMap url)
      | ObjectValue _ \<Rightarrow> Inl NotAFunction)"

text \<open>
  The argument of \<open>fetch\<close>: a string, a \<open>Request\<close> (with its \<open>url\<close>), or any other value
  (with \<open>String(input)\<close>).
\<close>

datatype fetch_input = StringInput string | RequestInput string | OtherInput string

definition url_of :: "fetch_input \<Rightarrow> string" where
  "url_of input = (case input of StringInput u \<Rightarrow> u | RequestInput u \<Rightarrow> u | OtherInput u \<Rightarrow> u)"

text \<open>
  What the wrapped \<open>fetch\<close> hands to \<open>originalFetch\<close> as its first argument: the caller's
  input, the local value in its place (\<open>input = url\<close>), or \<open>new Request(url, input)\<close>.
\<close>

datatype fetch_arg = Caller fetch_input | Replaced js_value | Rebuilt js_value

record fakePackageJson =
  name :: string
  version :: string
  main :: string
  jsdelivr :: string
  unpkg :: string

text \<open>
  What one call of the wrapped \<open>fetch\<close> does: it answers with the synthesized manifest,
  it calls \<open>originalFetch\<close> with an argument and the caller's \<open>init\<close>, or it throws.
\<close>

datatype 'i fetch_step = FakeResponse fakePackageJson | OriginalFetch fetch_arg 'i | Throws js_error

definition fetch_override :: "depmap \<Rightarrow> fetch_input \<Rightarrow> 'i \<Rightarrow> 'i fetch_step" where
  "fetch_override depMap input init =
     (let url = url_of input
      in case cdnToLocal depMap url of
           IsPackageJson pkgName \<Rightarrow>
             (let mainPath = inline_findLocalPath depMap pkgName
              in if truthy mainPath then
                   (case mainPath of
                      Some (JString p) \<Rightarrow>
                        FakeResponse
                          \<lparr>name = hd (split pkgName CHR ''@''),
                           version =
                             (if truthy_string (at_index (split pkgName CHR ''@'') 1)
                              then or_empty (at_index (split pkgName CHR ''@'') 1)
                              else ''1.0.0''),
                           main = or_empty (pop (split p CHR ''/'')),
                           jsdelivr = or_empty (pop (split p CHR ''/'')),
                           unpkg = or_empty (pop (split p CHR ''/''))\<rparr>
                    | Some (Builtin b) \<Rightarrow> Throws NotAFunction
                    | None \<Rightarrow> OriginalFetch (Caller input) init)
                 else OriginalFetch (Caller input) init)
         | LocalPath local \<Rightarrow>
             OriginalFetch
               (case input of
                  StringInput _ \<Rightarrow> Replaced local
                | RequestInput _ \<Rightarrow> Rebuilt local
                | OtherInput _ \<Rightarrow> Caller input)
               init
         | Null \<Rightarrow> OriginalFetch (Caller input) init)"

text \<open>
  The two wrapped setters of a script element: the pair of arguments with which
  \<open>originalSetAttribute\<close> is called, or the exception thrown before it is.
\<close>

definition setAttribute_override :: "depmap \<Rightarrow> string \<Rightarrow> raw_value \<Rightarrow> js_error + string \<times> raw_value" where
  "setAttribute_override depMap attr value =
     (if attr = ''src'' then
        (case cdnToLocal_raw depMap value of
           Inl e \<Rightarrow> Inl e
         | Inr (LocalPath (JString local)) \<Rightarrow> Inr (attr, StringValue local)
         | Inr (LocalPath (Builtin b)) \<Rightarrow> Inr (attr, value)
         | Inr (IsPackageJson _) \<Rightarrow> Inr (attr, value)
         | Inr Null \<Rightarrow> Inr (attr, value))
      else Inr (attr, value))"

definition src_setter :: "depmap \<Rightarrow> raw_value \<Rightarrow> js_error + string \<times> raw_value" where
  "src_setter depMap value =
     (case cdnToLocal_raw depMap value of
        Inl e \<Rightarrow> Inl e
      | Inr (LocalPath (JString local)) \<Rightarrow> Inr (''src'', StringValue local)
      | Inr (LocalPath (Builtin b)) \<Rightarrow> Inr (''src'', value)
      | Inr (IsPackageJson _) \<Rightarrow> Inr (''src'', value)
      | Inr Null \<Rightarrow> Inr (''src'', value))"

text \<open>
  The two primitives the script replaces. Each run of the script captures the current
  primitive (\<open>const originalFetch = window.fetch\<close>,
  \<open>document.createElement.bind(document)\<close>) in a new closure and stores the closure in
  its place.
\<close>

datatype fetch_fn = NativeFetch | InterceptedFetch depmap fetch_fn

datatype createElement_fn = NativeCreateElement | InterceptedCreateElement depmap createElement_fn

record window =
  fetch :: fetch_fn
  createElement :: createElement_fn

definition interceptor_script :: "depmap \<Rightarrow> window \<Rightarrow> window" where
  "interceptor_script depMap w =
     w\<lparr>fetch := InterceptedFetch depMap (fetch w),
       createElement := InterceptedCreateElement depMap (createElement w)\<rparr>"



text \<open>
  What the page decides when a rewritten argument is read by the function it is handed
  to: \<open>request_url v\<close> is the \<open>url\<close> of \<open>new Request(v, input)\<close> (the browser resolves a
  relative path against the document), and \<open>to_string k\<close> is \<open>String(v)\<close> for the inherited
  value named \<open>k\<close> (the text of a native function, which differs between browsers).
\<close>

record page =
  request_url :: "js_value \<Rightarrow> string"
  to_string :: "string \<Rightarrow> string"

text \<open>The argument of \<open>originalFetch\<close> as the function called with it classifies it.\<close>

definition seen :: "page \<Rightarrow> fetch_arg \<Rightarrow> fetch_input" where
  "seen pg arg =
     (case arg of
        Caller input \<Rightarrow> input
      | Replaced (JString local) \<Rightarrow> StringInput local
      | Replaced (Builtin k) \<Rightarrow> OtherInput (to_string pg k)
      | Rebuilt v \<Rightarrow> RequestInput (request_url pg v))"

text \<open>
  Calling \<open>window.fetch\<close>: the answer of the first wrapper that answers or throws, else
  the call that reaches the browser's own \<open>fetch\<close>.
\<close>

fun call_fetch :: "page \<Rightarrow> fetch_fn \<Rightarrow> fetch_input \<Rightarrow> 'i \<Rightarrow> 'i fetch_step" where
  "call_fetch pg NativeFetch input init = OriginalFetch (Caller input) init"
| "call_fetch pg (InterceptedFetch depMap originalFetch) input init =
     (case fetch_override depMap input init of
        FakeResponse j \<Rightarrow> FakeResponse j
      | Throws e \<Rightarrow> Throws e
      | OriginalFetch arg init' \<Rightarrow> call_fetch pg originalFetch (seen pg arg) init')"

text \<open>
  An element as the wrappers of \<open>createElement\<close> see it: the tag it was created for, its
  \<open>setAttribute\<close> (the native method or a closure stored over it), and the own accessor
  \<open>src\<close> that \<open>Object.defineProperty\<close> put on it, if any, with the dependency map and the
  \<open>originalSetAttribute\<close> its setter closes over. \<open>defineProperty\<close> makes the accessor
  non-configurable, so defining it once more throws. A tag name the browser itself
  rejects is not modelled.
\<close>

datatype setAttribute_fn = NativeSetAttribute | InterceptedSetAttribute depmap setAttribute_fn

record element =
  tag :: raw_value
  setAttribute :: setAttribute_fn
  src_property :: "(depmap \<times> setAttribute_fn) option"

fun call_createElement :: "createElement_fn \<Rightarrow> raw_value \<Rightarrow> js_error + element" where
  "call_createElement NativeCreateElement tagName =
     Inr \<lparr>tag = tagName, setAttribute = NativeSetAttribute, src_property = None\<rparr>"
| "call_createElement (InterceptedCreateElement depMap originalCreateElement) tagName =
     (case call_createElement originalCreateElement tagName of
        Inl e \<Rightarrow> Inl e
      | Inr element \<Rightarrow>
          (case tagName of
             ObjectValue _ \<Rightarrow> Inl NotAFunction
           | StringValue t \<Rightarrow>
               if toLowerCase t = ''script'' then
                 (let originalSetAttribute = setAttribute element;
                      wrapped =
                        element\<lparr>setAttribute :=
                                  InterceptedSetAttribute depMap originalSetAttribute\<rparr>
                  in case src_property wrapped of
                       Some _ \<Rightarrow> Inl CannotRedefineProperty
                     | None \<Rightarrow>
                         Inr (wrapped\<lparr>src_property := Some (depMap, originalSetAttribute)\<rparr>))
               else Inr element))"

text \<open>
  \<open>element.setAttribute(name, value)\<close> and \<open>element.src = value\<close>: the arguments that reach
  the native \<open>setAttribute\<close> (for an element without the accessor, the native \<open>src\<close>
  setter), or the exception.
\<close>

fun call_setAttribute :: "setAttribute_fn \<Rightarrow> string \<Rightarrow> raw_value \<Rightarrow> js_error + string \<times> raw_value" where
  "call_setAttribute NativeSetAttribute attr value = Inr (attr, value)"
| "call_setAttribute (InterceptedSetAttribute depMap originalSetAttribute) attr value =
     (case setAttribute_override depMap attr value of
        Inl e \<Rightarrow> Inl e
      | Inr (attr', value') \<Rightarrow> call_setAttribute originalSetAttribute attr' value')"

definition set_src :: "element \<Rightarrow> raw_value \<Rightarrow> js_error + string \<times> raw_value" where
  "set_src element value =
     (case src_property element of
        None \<Rightarrow> Inr (''src'', value)
      | Some (depMap, originalSetAttribute) \<Rightarrow>
          (case src_setter depMap value of
             Inl e \<Rightarrow> Inl e
           | Inr (attr', value') \<Rightarrow> call_setAttribute originalSetAttribute attr' value'))"

section \<open>The text of the dependency map that the filter pastes into the script\<close>

text \<open>
  \<open>Meta\<close> of \<open>ojs-offline.lua\<close> reads \<open>resources/dependency-map.json\<close> (\<open>None\<close> when
  \<open>io.open\<close> fails), rewrites the library paths and pastes the text after
  \<open>const depMap = \<close>. The text is not parsed or checked by the filter.
\<close>

definition libs_base :: string where
  "libs_base = ''site_libs/quarto-contrib/ojs-offline-libs-1.0.0/libs/''"

definition dep_map_json :: "string option \<Rightarrow> string" where
  "dep_map_json map_file =
     gsub (case map_file of None \<Rightarrow> ''{}'' | Some content \<Rightarrow> content)
       (CHR 0x22 # ''ojs-offline-libs/'') (CHR 0x22 # libs_base)"

section \<open>State, loading and the debug toggle of \<open>ojs-offline-resolver.js\<close>\<close>

text \<open>
  What \<open>response.json()\<close> resolves to, and so what \<open>dependencyMap\<close> can hold: an object or
  \<open>null\<close>. A body that is an array, a number, a string or a boolean is not modelled.
\<close>

datatype json_value = JsonObject depmap | JsonNull

datatype console_arg = Str string | Num nat | Err js_error

record resolver_state =
  DEBUG :: bool
  dependencyMap :: json_value
  console :: "console_arg list list"

text \<open>The state after \<open>const DEBUG = false\<close> and \<open>let dependencyMap = {}\<close>.\<close>

definition initial_state :: resolver_state where
  "initial_state = \<lparr>DEBUG = False, dependencyMap = JsonObject [], console = []\<rparr>"

text \<open>How a binding was declared; assigning to a \<open>const\<close> binding throws.\<close>

datatype binding_kind = ConstBinding | LetBinding

definition assign :: "binding_kind \<Rightarrow> 'a \<Rightarrow> js_error + 'a" where
  "assign d v = (case d of ConstBinding \<Rightarrow> Inl AssignmentToConstant | LetBinding \<Rightarrow> Inr v)"

definition DEBUG_binding :: binding_kind where
  "DEBUG_binding = ConstBinding"

definition dependencyMap_binding :: binding_kind where
  "dependencyMap_binding = LetBinding"

definition log :: "resolver_state \<Rightarrow> console_arg list \<Rightarrow> resolver_state" where
  "log st args =
     (if DEBUG st then st\<lparr>console := console st @ [Str ''[OJS Offline]'' # args]\<rparr> else st)"

definition setDebug :: "bool \<Rightarrow> resolver_state \<Rightarrow> js_error + resolver_state" where
  "setDebug enabled st =
     (case assign DEBUG_binding enabled of
        Inl e \<Rightarrow> Inl e
      | Inr v \<Rightarrow> Inr (st\<lparr>DEBUG := v\<rparr>))"

text \<open>
  The exported \<open>window.__quartoOjsOffline.findLocalPath\<close>: it reads the variable
  \<open>dependencyMap\<close>, and indexing \<open>null\<close> throws.
\<close>

definition exported_findLocalPath :: "resolver_state \<Rightarrow> string \<Rightarrow> js_error + js_value option" where
  "exported_findLocalPath st specifier =
     (case dependencyMap st of
        JsonNull \<Rightarrow> Inl PropertyOfNull
      | JsonObject m \<Rightarrow> Inr (findLocalPath m specifier))"

text \<open>
  The page and the network as \<open>loadDependencyMap\<close> sees them. \<open>mapScript\<close> is
  \<open>document.getElementById('ojs-dependency-map')\<close>: \<open>None\<close> for \<open>null\<close>, else the value of
  the element's \<open>src\<close> attribute (\<open>None\<close> when it has none). \<open>remote url\<close> is the outcome
  of \<open>fetch(url)\<close>: \<open>None\<close> when the promise rejects, else the response, whose \<open>json\<close> is
  \<open>None\<close> when \<open>response.json()\<close> rejects.
\<close>

record response =
  ok :: bool
  json :: "json_value option"

record environment =
  mapScript :: "string option option"
  remote :: "string \<Rightarrow> response option"

text \<open>
  The \<open>try\<close> block is a pair: the state in which it is left, and the exception that
  leaves it, if any. The first component matters: \<open>dependencyMap = await response.json()\<close>
  has run before the arguments of the following \<open>log\<close> call are evaluated, and
  \<open>Object.keys(dependencyMap)\<close> throws when the body was \<open>null\<close>.
\<close>

text \<open>The statements after \<open>// Fallback: try to fetch directly\<close>.\<close>

definition direct_fetch :: "environment \<Rightarrow> resolver_state \<Rightarrow> resolver_state \<times> js_error option" where
  "direct_fetch env st =
     (case remote env ''ojs-offline-dependency-map.json'' of
        None \<Rightarrow> (st, Some FetchRejected)
      | Some response \<Rightarrow>
          if ok response then
            (case json response of
               None \<Rightarrow> (st, Some JsonRejected)
             | Some body \<Rightarrow>
                 (case assign dependencyMap_binding body of
                    Inl e \<Rightarrow> (st, Some e)
                  | Inr v \<Rightarrow>
                      (log (st\<lparr>dependencyMap := v\<rparr>)
                         [Str ''Dependency map loaded from direct fetch''], None)))
          else (st, None))"

definition loadDependencyMap_try :: "environment \<Rightarrow> resolver_state \<Rightarrow> resolver_state \<times> js_error option" where
  "loadDependencyMap_try env st =
     (case mapScript env of
        None \<Rightarrow> direct_fetch env st
      | Some mapUrl \<Rightarrow>
          if truthy_string mapUrl then
            (case remote env (or_empty mapUrl) of
               None \<Rightarrow> (st, Some FetchRejected)
             | Some response \<Rightarrow>
                 (case json response of
                    None \<Rightarrow> (st, Some JsonRejected)
                  | Some body \<Rightarrow>
                      (case assign dependencyMap_binding body of
                         Inl e \<Rightarrow> (st, Some e)
                       | Inr v \<Rightarrow>
                           (case v of
                              JsonNull \<Rightarrow> (st\<lparr>dependencyMap := v\<rparr>, Some PropertyOfNull)
                            | JsonObject m \<Rightarrow>
                                (log (st\<lparr>dependencyMap := v\<rparr>)
                                   [Str ''Dependency map loaded:'', Num (length (own_keys m)),
                                    Str ''entries''], None)))))
          else direct_fetch env st)"

text \<open>
  \<open>loadDependencyMap\<close>: the \<open>try\<close> block and its \<open>catch\<close>, which warns on the console and
  returns. \<open>Inl\<close> would be an exception that leaves the function.
\<close>

definition loadDependencyMap :: "environment \<Rightarrow> resolver_state \<Rightarrow> js_error + resolver_state" where
  "loadDependencyMap env st =
     (case loadDependencyMap_try env st of
        (st', None) \<Rightarrow> Inr st'
      | (st', Some error) \<Rightarrow>
          Inr (st'\<lparr>console := console st'
                  @ [[Str ''[OJS Offline] Failed to load dependency map:'', Err error]]\<rparr>))"

section \<open>The resolver as the specification words it\<close>









section \<open>The steps of the inline resolver in words\<close>









text \<open>A local path that is itself a CDN URL would be rewritten again by the next wrapper.\<close>

definition cdn_url :: "string \<Rightarrow> bool" where
  "cdn_url u = (startsWith u CDN_JSDELIVR \<or> startsWith u CDN_OBSERVABLE)"

section \<open>Cutting a string at its first separator\<close>

lemma takeWhile_sep:
  "c \<notin> set a \<Longrightarrow> takeWhile (\<lambda>x. x \<noteq> c) (a @ c # b) = a"
  by (induction a) auto

lemma dropWhile_sep:
  "c \<notin> set a \<Longrightarrow> dropWhile (\<lambda>x. x \<noteq> c) (a @ c # b) = c # b"
  by (induction a) auto

lemma takeWhile_nosep:
  "c \<notin> set a \<Longrightarrow> takeWhile (\<lambda>x. x \<noteq> c) a = a"
  by (induction a) auto

lemma dropWhile_nosep:
  "c \<notin> set a \<Longrightarrow> dropWhile (\<lambda>x. x \<noteq> c) a = []"
  by (induction a) auto

lemma takeWhile_free: "c \<notin> set (takeWhile (\<lambda>x. x \<noteq> c) s)"
  by (induction s) auto

lemma dropWhile_Cons_sep:
  "dropWhile (\<lambda>x. x \<noteq> c) s = d # t \<Longrightarrow> d = c \<and> s = takeWhile (\<lambda>x. x \<noteq> c) s @ c # t"
  by (induction s) (auto split: if_splits)

lemma dropWhile_Nil_all:
  "dropWhile (\<lambda>x. x \<noteq> c) s = [] \<Longrightarrow> takeWhile (\<lambda>x. x \<noteq> c) s = s"
  by (induction s) (auto split: if_splits)

section \<open>The matchers decide the languages of the two patterns\<close>

lemma version_and_path_sound:
  assumes "version_and_path r = Some (v, p)"
  shows "\<exists>g3. tail_form r v g3 \<and> p = or_empty g3"
proof -
  let ?t = "takeWhile (\<lambda>x. x \<noteq> CHR ''/'') r"
  let ?d = "dropWhile (\<lambda>x. x \<noteq> CHR ''/'') r"
  from assms have ne: "?t \<noteq> []"
    by (auto simp: version_and_path_def Let_def split: if_splits)
  show ?thesis
  proof (cases ?d)
    case Nil
    with assms ne have "v = ?t" "p = []"
      by (auto simp: version_and_path_def Let_def)
    moreover from Nil have tr: "?t = r" by (rule dropWhile_Nil_all)
    moreover have "CHR ''/'' \<notin> set ?t" by (rule takeWhile_free)
    with tr have "CHR ''/'' \<notin> set r" by metis
    moreover have "r \<noteq> []" using ne by auto
    ultimately have "tail_form r v None"
      by (simp add: tail_form_def)
    then show ?thesis using \<open>p = []\<close> by (auto simp: or_empty_def intro: exI[of _ None])
  next
    case (Cons d t)
    with assms ne have vp: "v = ?t" "p = t" "t \<noteq> []" "\<not> has_line_terminator t"
      by (auto simp: version_and_path_def Let_def split: if_splits)
    from Cons have "r = ?t @ CHR ''/'' # t" using dropWhile_Cons_sep by fastforce
    then have "tail_form r v (Some p)" using vp ne takeWhile_free[of "CHR ''/''" r]
      by (simp add: tail_form_def)
    then show ?thesis by (auto simp: or_empty_def intro: exI[of _ "Some p"])
  qed
qed

lemma version_and_path_complete:
  assumes "tail_form r v g3"
  shows "version_and_path r = Some (v, or_empty g3)"
proof (cases g3)
  case None
  with assms have "r = v" "v \<noteq> []" "CHR ''/'' \<notin> set v" by (auto simp: tail_form_def)
  then show ?thesis using None
    by (simp add: version_and_path_def Let_def takeWhile_nosep dropWhile_nosep or_empty_def)
next
  case (Some p)
  with assms have "r = v @ CHR ''/'' # p" "v \<noteq> []" "CHR ''/'' \<notin> set v" "p \<noteq> []"
    "\<not> has_line_terminator p" by (auto simp: tail_form_def)
  then show ?thesis using Some
    by (simp add: version_and_path_def Let_def takeWhile_sep dropWhile_sep or_empty_def)
qed

lemma regularMatch_sound:
  assumes "regularMatch s = Some (g1, g2, p)"
  shows "\<exists>g3. unscoped_form s g1 g2 g3 \<and> p = or_empty g3"
proof -
  let ?t = "takeWhile (\<lambda>x. x \<noteq> CHR ''@'') s"
  let ?d = "dropWhile (\<lambda>x. x \<noteq> CHR ''@'') s"
  from assms obtain d r1 where d: "?d = d # r1" and ne: "?t \<noteq> []"
    and vp: "version_and_path r1 = Some (g2, p)" and g1: "g1 = ?t"
    by (auto simp: regularMatch_def Let_def split: if_splits list.splits option.splits)
  from d have s: "s = ?t @ CHR ''@'' # r1" using dropWhile_Cons_sep by fastforce
  from vp obtain g3 where "tail_form r1 g2 g3" "p = or_empty g3"
    using version_and_path_sound by blast
  then show ?thesis using s ne g1 takeWhile_free[of "CHR ''@''" s]
    unfolding unscoped_form_def by blast
qed

lemma regularMatch_complete:
  assumes "unscoped_form s g1 g2 g3"
  shows "regularMatch s = Some (g1, g2, or_empty g3)"
proof -
  from assms obtain r where r: "g1 \<noteq> []" "CHR ''@'' \<notin> set g1" "s = g1 @ CHR ''@'' # r"
    "tail_form r g2 g3" by (auto simp: unscoped_form_def)
  then show ?thesis
    by (simp add: regularMatch_def Let_def takeWhile_sep dropWhile_sep version_and_path_complete)
qed

lemma scopedMatch_sound:
  assumes "scopedMatch s = Some (g1, g2, p)"
  shows "\<exists>g3. scoped_form s g1 g2 g3 \<and> p = or_empty g3"
proof -
  from assms obtain r where s: "s = CHR ''@'' # r"
    by (auto simp: scopedMatch_def split: list.splits if_splits)
  let ?sc = "takeWhile (\<lambda>x. x \<noteq> CHR ''/'') r"
  let ?r1 = "dropWhile (\<lambda>x. x \<noteq> CHR ''/'') r"
  from assms s obtain d r2 where r1: "?r1 = d # r2" and sc: "?sc \<noteq> []"
    by (auto simp: scopedMatch_def Let_def split: list.splits if_splits)
  let ?nm = "takeWhile (\<lambda>x. x \<noteq> CHR ''@'') r2"
  let ?r3 = "dropWhile (\<lambda>x. x \<noteq> CHR ''@'') r2"
  from assms s r1 sc obtain e r4 where r3: "?r3 = e # r4" and nm: "?nm \<noteq> []"
    and vp: "version_and_path r4 = Some (g2, p)"
    and g1: "g1 = CHR ''@'' # ?sc @ CHR ''/'' # ?nm"
    by (auto simp: scopedMatch_def Let_def split: list.splits if_splits option.splits)
  from r1 have r: "r = ?sc @ CHR ''/'' # r2" using dropWhile_Cons_sep by fastforce
  from r3 have r2: "r2 = ?nm @ CHR ''@'' # r4" using dropWhile_Cons_sep by fastforce
  from vp obtain g3 where t: "tail_form r4 g2 g3" "p = or_empty g3"
    using version_and_path_sound by blast
  have "s = g1 @ CHR ''@'' # r4" using s r r2 g1 by simp
  then have "scoped_form s g1 g2 g3"
    unfolding scoped_form_def
    using g1 sc nm t(1) takeWhile_free[of "CHR ''/''" r] takeWhile_free[of "CHR ''@''" r2]
    by blast
  then show ?thesis using t(2) by blast
qed

lemma scopedMatch_complete:
  assumes "scoped_form s g1 g2 g3"
  shows "scopedMatch s = Some (g1, g2, or_empty g3)"
proof -
  from assms obtain scope nm r where h: "g1 = CHR ''@'' # scope @ CHR ''/'' # nm"
    "scope \<noteq> []" "CHR ''/'' \<notin> set scope" "nm \<noteq> []" "CHR ''@'' \<notin> set nm"
    "s = g1 @ CHR ''@'' # r" "tail_form r g2 g3" by (auto simp: scoped_form_def)
  then have s: "s = CHR ''@'' # (scope @ CHR ''/'' # (nm @ CHR ''@'' # r))" by simp
  show ?thesis unfolding s using h(1-5,7)
    by (simp add: scopedMatch_def Let_def takeWhile_sep dropWhile_sep version_and_path_complete)
qed

lemma scoped_form_iff:
  "scopedMatch s = Some (g1, g2, p) \<longleftrightarrow> (\<exists>g3. scoped_form s g1 g2 g3 \<and> p = or_empty g3)"
  using scopedMatch_sound scopedMatch_complete by blast

lemma unscoped_form_iff:
  "regularMatch s = Some (g1, g2, p) \<longleftrightarrow> (\<exists>g3. unscoped_form s g1 g2 g3 \<and> p = or_empty g3)"
  using regularMatch_sound regularMatch_complete by blast

lemma scopedMatch_None_iff:
  "scopedMatch s = None \<longleftrightarrow> (\<forall>g1 g2 g3. \<not> scoped_form s g1 g2 g3)"
proof
  assume n: "scopedMatch s = None"
  show "\<forall>g1 g2 g3. \<not> scoped_form s g1 g2 g3"
  proof (intro allI notI)
    fix g1 g2 g3 assume "scoped_form s g1 g2 g3"
    then have "scopedMatch s = Some (g1, g2, or_empty g3)" by (rule scopedMatch_complete)
    with n show False by simp
  qed
next
  assume a: "\<forall>g1 g2 g3. \<not> scoped_form s g1 g2 g3"
  show "scopedMatch s = None"
  proof (cases "scopedMatch s")
    case None then show ?thesis .
  next
    case (Some t)
    obtain g1 g2 p where "t = (g1, g2, p)" by (cases t) auto
    with Some a scopedMatch_sound show ?thesis by blast
  qed
qed

lemma regularMatch_None_iff:
  "regularMatch s = None \<longleftrightarrow> (\<forall>g1 g2 g3. \<not> unscoped_form s g1 g2 g3)"
proof
  assume n: "regularMatch s = None"
  show "\<forall>g1 g2 g3. \<not> unscoped_form s g1 g2 g3"
  proof (intro allI notI)
    fix g1 g2 g3 assume "unscoped_form s g1 g2 g3"
    then have "regularMatch s = Some (g1, g2, or_empty g3)" by (rule regularMatch_complete)
    with n show False by simp
  qed
next
  assume a: "\<forall>g1 g2 g3. \<not> unscoped_form s g1 g2 g3"
  show "regularMatch s = None"
  proof (cases "regularMatch s")
    case None then show ?thesis .
  next
    case (Some t)
    obtain g1 g2 p where "t = (g1, g2, p)" by (cases t) auto
    with Some a regularMatch_sound show ?thesis by blast
  qed
qed

text \<open>
  Claim C5. The parser is a total function on strings: it has no failing branch. On
  every input that is in neither the language of the scoped pattern nor that of the
  unscoped pattern, the result is the bare-name record: the name is the whole input,
  the version is absent and the path is empty.
\<close>

theorem parse_bare_name_fallback:
  assumes "\<forall>g1 g2 g3. \<not> scoped_form specifier g1 g2 g3"
    and "\<forall>g1 g2 g3. \<not> unscoped_form specifier g1 g2 g3"
  shows "parsePackageIdentifier specifier
           = \<lparr>package_identifier.name = specifier, version = None, path = []\<rparr>"
proof -
  from assms(1) have "scopedMatch specifier = None" by (rule iffD2 [OF scopedMatch_None_iff])
  moreover from assms(2) have "regularMatch specifier = None"
    by (rule iffD2 [OF regularMatch_None_iff])
  ultimately show ?thesis by (simp add: parsePackageIdentifier_def)
qed

theorem parse_bare_name_fallback_witness:
  "(\<forall>g1 g2 g3. \<not> scoped_form ''d3'' g1 g2 g3)
   \<and> (\<forall>g1 g2 g3. \<not> unscoped_form ''d3'' g1 g2 g3)
   \<and> parsePackageIdentifier ''d3''
       = \<lparr>package_identifier.name = ''d3'', version = None, path = []\<rparr>"
proof -
  have "scopedMatch ''d3'' = None" by (simp add: scopedMatch_def)
  then have a: "\<forall>g1 g2 g3. \<not> scoped_form ''d3'' g1 g2 g3"
    by (rule iffD1 [OF scopedMatch_None_iff])
  have "regularMatch ''d3'' = None" by (simp add: regularMatch_def)
  then have b: "\<forall>g1 g2 g3. \<not> unscoped_form ''d3'' g1 g2 g3"
    by (rule iffD1 [OF regularMatch_None_iff])
  from a b parse_bare_name_fallback [OF a b] show ?thesis by blast
qed

lemma version_and_path_nonempty:
  "version_and_path r = Some (v, p) \<Longrightarrow> v \<noteq> []"
  by (auto simp: version_and_path_def Let_def split: if_splits list.splits)

lemma scopedMatch_name:
  "scopedMatch s = Some (g1, g2, p) \<Longrightarrow> g1 \<noteq> [] \<and> g2 \<noteq> []"
  by (auto simp: scopedMatch_def Let_def version_and_path_nonempty
      split: list.splits if_splits option.splits)

lemma regularMatch_name:
  "regularMatch s = Some (g1, g2, p) \<Longrightarrow> g1 \<noteq> [] \<and> g2 \<noteq> []"
  by (auto simp: regularMatch_def Let_def version_and_path_nonempty
      split: list.splits if_splits option.splits)

text \<open>On the empty string the parser returns the empty name.\<close>

theorem parse_empty_name_counterexample:
  "package_identifier.name (parsePackageIdentifier []) = []"
  by (simp add: parsePackageIdentifier_def scopedMatch_def regularMatch_def)

text \<open>
  Claim C6. The name field of the parser's result is not empty for every input that is
  not the empty string.
\<close>

theorem parse_name_nonempty:
  assumes "specifier \<noteq> []"
  shows "package_identifier.name (parsePackageIdentifier specifier) \<noteq> []"
proof (cases "scopedMatch specifier")
  case (Some t)
  obtain g1 g2 p where t: "t = (g1, g2, p)" by (cases t) auto
  with Some have "g1 \<noteq> []" using scopedMatch_name by blast
  with Some t show ?thesis by (simp add: parsePackageIdentifier_def)
next
  case None
  show ?thesis
  proof (cases "regularMatch specifier")
    case (Some t)
    obtain g1 g2 p where t: "t = (g1, g2, p)" by (cases t) auto
    with Some have "g1 \<noteq> []" using regularMatch_name by blast
    with Some t None show ?thesis by (simp add: parsePackageIdentifier_def)
  next
    case n: None
    with None assms show ?thesis by (simp add: parsePackageIdentifier_def)
  qed
qed

theorem parse_name_nonempty_witness:
  "''d3@7.8.5'' \<noteq> [] \<and> package_identifier.name (parsePackageIdentifier ''d3@7.8.5'') \<noteq> []"
  using parse_name_nonempty [of "''d3@7.8.5''"] by simp



section \<open>Requests outside the two CDN prefixes\<close>

lemma cdnToLocal_non_cdn:
  assumes "\<not> cdn_url url"
  shows "cdnToLocal depMap url = Null"
  using assms by (simp add: cdnToLocal_def cdn_url_def truthy_string_def)

lemma fetch_override_non_cdn:
  assumes "\<not> cdn_url (url_of input)"
  shows "fetch_override depMap input init = OriginalFetch (Caller input) init"
  using assms by (simp add: fetch_override_def cdnToLocal_non_cdn)

lemma call_fetch_non_cdn:
  assumes "\<not> cdn_url (url_of input)"
  shows "call_fetch pg f input init = OriginalFetch (Caller input) init"
  using assms by (induction f) (simp_all add: fetch_override_non_cdn seen_def)

lemma setAttribute_override_non_cdn:
  assumes "\<not> cdn_url url"
  shows "setAttribute_override depMap attr (StringValue url) = Inr (attr, StringValue url)"
  using assms by (simp add: setAttribute_override_def cdnToLocal_raw_def cdnToLocal_non_cdn)

lemma call_setAttribute_non_cdn:
  assumes "\<not> cdn_url url"
  shows "call_setAttribute f attr (StringValue url) = Inr (attr, StringValue url)"
  using assms by (induction f) (simp_all add: setAttribute_override_non_cdn)

text \<open>
  For a URL that is a string and starts with neither CDN prefix, the wrapped \<open>fetch\<close>,
  through any number of wrappers, and both wrapped setters hand the caller's
  arguments to the original primitive.
\<close>

lemma non_cdn_string_request_unmodified:
  assumes "\<not> cdn_url (url_of input)" and "\<not> cdn_url url"
  shows "fetch_override depMap input init = OriginalFetch (Caller input) init
         \<and> call_fetch pg f input init = OriginalFetch (Caller input) init
         \<and> setAttribute_override depMap attr (StringValue url) = Inr (attr, StringValue url)
         \<and> src_setter depMap (StringValue url) = Inr (''src'', StringValue url)"
  using assms
  by (simp add: fetch_override_non_cdn call_fetch_non_cdn setAttribute_override_non_cdn
      src_setter_def cdnToLocal_raw_def cdnToLocal_non_cdn)

text \<open>
  Claim C3. A script \<open>src\<close> that is not a string, here a \<open>URL\<close> object for an address
  outside both CDN prefixes, is not handed on: both wrapped setters throw, on the
  element that one run of the script returns as well, while the wrapped \<open>fetch\<close>, which
  converts its input with \<open>String(input)\<close>, hands the same value on unchanged.
\<close>

theorem non_string_src_throws:
  "\<not> cdn_url ''https://example.com/other.js''
   \<and> setAttribute_override depMap ''src'' (ObjectValue ''https://example.com/other.js'')
       = Inl NotAFunction
   \<and> src_setter depMap (ObjectValue ''https://example.com/other.js'') = Inl NotAFunction
   \<and> call_createElement (InterceptedCreateElement depMap NativeCreateElement)
         (StringValue ''script'')
       = Inr \<lparr>tag = StringValue ''script'',
              setAttribute = InterceptedSetAttribute depMap NativeSetAttribute,
              src_property = Some (depMap, NativeSetAttribute)\<rparr>
   \<and> set_src \<lparr>tag = StringValue ''script'',
               setAttribute = InterceptedSetAttribute depMap NativeSetAttribute,
               src_property = Some (depMap, NativeSetAttribute)\<rparr>
         (ObjectValue ''https://example.com/other.js'') = Inl NotAFunction
   \<and> set_src \<lparr>tag = StringValue ''script'', setAttribute = NativeSetAttribute,
               src_property = None\<rparr>
         (ObjectValue ''https://example.com/other.js'')
       = Inr (''src'', ObjectValue ''https://example.com/other.js'')
   \<and> fetch_override depMap (OtherInput ''https://example.com/other.js'') init
       = OriginalFetch (Caller (OtherInput ''https://example.com/other.js'')) init"
proof -
  have n: "\<not> cdn_url ''https://example.com/other.js''"
    by (simp add: cdn_url_def startsWith_def CDN_JSDELIVR_def CDN_OBSERVABLE_def)
  have f: "fetch_override depMap (OtherInput ''https://example.com/other.js'') init
       = OriginalFetch (Caller (OtherInput ''https://example.com/other.js'')) init"
    using n by (simp add: fetch_override_non_cdn url_of_def)
  have t: "toLowerCase ''script'' = ''script''" by (simp add: toLowerCase_def)
  show ?thesis
    using n f t
    by (simp add: setAttribute_override_def src_setter_def cdnToLocal_raw_def set_src_def)
qed

section \<open>Loading the dependency map\<close>

lemma parse_versionless:
  assumes "package_identifier.version (parsePackageIdentifier s) = None"
  shows "parsePackageIdentifier s = \<lparr>package_identifier.name = s, version = None, path = []\<rparr>"
  using assms by (auto simp: parsePackageIdentifier_def split: option.splits)

lemma parse_version_nonempty:
  assumes "package_identifier.version (parsePackageIdentifier s) = Some v"
  shows "v \<noteq> []"
  using assms scopedMatch_name [of s] regularMatch_name [of s]
  by (auto simp: parsePackageIdentifier_def split: option.splits)

lemma inherited_plain:
  assumes "inherited k"
  shows "CHR ''@'' \<notin> set k \<and> CHR ''/'' \<notin> set k \<and> k \<noteq> []"
  using assms by (auto simp: inherited_def Object_prototype_names_def)

lemma lookup_not_inherited:
  assumes "\<not> inherited k"
  shows "lookup m k = map_option JString (own m k)"
  using assms by (simp add: lookup_def split: option.splits)

lemma lookup_at: "CHR ''@'' \<in> set k \<Longrightarrow> lookup m k = map_option JString (own m k)"
  using inherited_plain lookup_not_inherited by blast

text \<open>Over the empty object only the inherited names resolve.\<close>

lemma findLocalPath_empty:
  "findLocalPath [] specifier = (if inherited specifier then Some (Builtin specifier) else None)"
proof (cases "inherited specifier")
  case True
  then show ?thesis by (simp add: findLocalPath_def lookup_def own_def truthy_def)
next
  case False
  have l: "\<And>k. CHR ''@'' \<in> set k \<Longrightarrow> \<not> truthy (lookup [] k)"
    by (simp add: lookup_at own_def truthy_def)
  have s: "\<not> truthy (lookup [] specifier)"
    using False by (simp add: lookup_not_inherited own_def truthy_def)
  show ?thesis
  proof (cases "package_identifier.version (parsePackageIdentifier specifier)")
    case None
    then have "parsePackageIdentifier specifier
        = \<lparr>package_identifier.name = specifier, version = None, path = []\<rparr>"
      by (rule parse_versionless)
    then show ?thesis
      using False s by (simp add: findLocalPath_def Let_def own_keys_def truthy_string_def)
  next
    case (Some v)
    then have "v \<noteq> []" by (rule parse_version_nonempty)
    then show ?thesis
      using False s l Some
      by (simp add: findLocalPath_def Let_def own_keys_def truthy_string_def or_empty_def)
  qed
qed

lemma loadDependencyMap_never_raises: "\<exists>st'. loadDependencyMap env st = Inr st'"
  by (simp add: loadDependencyMap_def split: prod.splits option.splits)

text \<open>A missing map file is pasted as the empty object.\<close>

lemma dep_map_json_missing: "dep_map_json None = ''{}''"
  by (simp add: dep_map_json_def gsub_def startsWith_def)

text \<open>
  Claim C8. Loading never raises, and when there is no element and the direct fetch
  rejects the map stays the empty object; yet \<open>findLocalPath\<close> over it does not return
  \<open>null\<close> for every specifier: for \<open>toString\<close> it returns the method every object inherits.
  And when the element is there and the server answers its address with status 404
  and a JSON body, that body becomes the map: the primary path does not test
  \<open>response.ok\<close>.
\<close>

theorem load_failure_not_null_for_all:
  "loadDependencyMap \<lparr>mapScript = None, remote = (\<lambda>url. None)\<rparr> initial_state
     = Inr \<lparr>DEBUG = False, dependencyMap = JsonObject [],
            console = [[Str ''[OJS Offline] Failed to load dependency map:'', Err FetchRejected]]\<rparr>
   \<and> exported_findLocalPath
        \<lparr>DEBUG = False, dependencyMap = JsonObject [],
         console = [[Str ''[OJS Offline] Failed to load dependency map:'', Err FetchRejected]]\<rparr>
        ''toString'' = Inr (Some (Builtin ''toString''))
   \<and> loadDependencyMap
        \<lparr>mapScript = Some (Some ''dependency-map.json''),
         remote = (\<lambda>url. Some \<lparr>ok = False, json = Some (JsonObject [(''error'', ''Not Found'')])\<rparr>)\<rparr>
        initial_state
     = Inr \<lparr>DEBUG = False, dependencyMap = JsonObject [(''error'', ''Not Found'')], console = []\<rparr>"
  by (simp add: loadDependencyMap_def loadDependencyMap_try_def direct_fetch_def
      initial_state_def exported_findLocalPath_def findLocalPath_empty inherited_def
      Object_prototype_names_def truthy_string_def or_empty_def assign_def
      dependencyMap_binding_def log_def)

text \<open>
  A body that is the JSON value \<open>null\<close> is stored before the \<open>log\<close> call throws, so the
  map is left \<open>null\<close> and the exported resolver throws on every specifier. When every
  fetch rejects, the map is left as it was.
\<close>

lemma null_body_leaves_map_null:
  "loadDependencyMap
     \<lparr>mapScript = Some (Some ''dependency-map.json''),
      remote = (\<lambda>url. Some \<lparr>ok = True, json = Some JsonNull\<rparr>)\<rparr>
     initial_state
   = Inr \<lparr>DEBUG = False, dependencyMap = JsonNull,
          console = [[Str ''[OJS Offline] Failed to load dependency map:'', Err PropertyOfNull]]\<rparr>
   \<and> exported_findLocalPath
        \<lparr>DEBUG = False, dependencyMap = JsonNull,
         console = [[Str ''[OJS Offline] Failed to load dependency map:'', Err PropertyOfNull]]\<rparr>
        specifier = Inl PropertyOfNull"
  by (simp add: loadDependencyMap_def loadDependencyMap_try_def initial_state_def
      exported_findLocalPath_def truthy_string_def or_empty_def assign_def
      dependencyMap_binding_def)

lemma load_rejected_keeps_map:
  assumes "\<And>url. remote env url = None"
  shows "\<exists>st'. loadDependencyMap env st = Inr st' \<and> dependencyMap st' = dependencyMap st"
  using assms
  by (simp add: loadDependencyMap_def loadDependencyMap_try_def direct_fetch_def
      split: option.splits)

section \<open>The synthesized manifest\<close>

text \<open>
  Claim C4. For a scoped package the manifest request resolves, yet the synthesized
  manifest has the empty name and the text between the two \<open>@\<close> as its version:
  \<open>pkgName.split('@')\<close> cuts at the \<open>@\<close> of the scope, not at the version separator.
\<close>

theorem manifest_scoped_package:
  "fetch_override
     [(''@observablehq/plot@0.6.11'', ''libs/@observablehq/plot@0.6.11/dist/plot.umd.min.js'')]
     (StringInput ''https://cdn.jsdelivr.net/npm/@observablehq/plot@0.6.11/package.json'') init
   = FakeResponse
       \<lparr>fakePackageJson.name = [], version = ''observablehq/plot'',
        main = ''plot.umd.min.js'', jsdelivr = ''plot.umd.min.js'', unpkg = ''plot.umd.min.js''\<rparr>"
  by (simp add: fetch_override_def cdnToLocal_def url_of_def startsWith_def endsWith_def
      CDN_JSDELIVR_def CDN_OBSERVABLE_def truthy_def truthy_string_def or_empty_def
      inline_findLocalPath_def lookup_def own_def at_index_def pop_def)

text \<open>The manifest of scenario 4 of the specification, an unscoped package.\<close>

lemma manifest_d3:
  "fetch_override [(''d3@7.8.5'', ''libs/d3@7.8.5/d3.min.js'')]
     (StringInput ''https://cdn.jsdelivr.net/npm/d3@7.8.5/package.json'') init
   = FakeResponse
       \<lparr>fakePackageJson.name = ''d3'', version = ''7.8.5'',
        main = ''d3.min.js'', jsdelivr = ''d3.min.js'', unpkg = ''d3.min.js''\<rparr>"
  by (simp add: fetch_override_def cdnToLocal_def url_of_def startsWith_def endsWith_def
      CDN_JSDELIVR_def CDN_OBSERVABLE_def truthy_def truthy_string_def or_empty_def
      inline_findLocalPath_def lookup_def own_def at_index_def pop_def)

section \<open>Running the interceptor script more than once\<close>

















text \<open>
  What the statement leaves out: the second wrapper of \<open>createElement\<close> defines the
  accessor \<open>src\<close> on an element that already has it, so creating a script element
  throws once the script has run twice.
\<close>

lemma second_install_breaks_script_creation:
  assumes "createElement w = NativeCreateElement"
  shows "call_createElement
           (createElement (interceptor_script depMap' (interceptor_script depMap w)))
           (StringValue ''script'') = Inl CannotRedefineProperty"
  using assms by (simp add: interceptor_script_def toLowerCase_def)

section \<open>The debug toggle\<close>

text \<open>
  Claim C9. \<open>DEBUG\<close> is declared with \<open>const\<close>, so \<open>setDebug\<close> throws for either boolean
  and never changes the setting: \<open>log\<close> stays silent.
\<close>

theorem setDebug_throws:
  "setDebug enabled st = Inl AssignmentToConstant
   \<and> log initial_state args = initial_state"
  by (simp add: setDebug_def assign_def DEBUG_binding_def log_def initial_state_def)

section \<open>The alias branch of the inline resolver\<close>

lemma split_not_Nil: "split s c \<noteq> []"
  by (induction s) (auto split: list.splits)

lemma hd_split: "hd (split s c) = takeWhile (\<lambda>x. x \<noteq> c) s"
  using split_not_Nil [of _ c] by (induction s) (auto split: list.splits)

lemma lastIndexOf_sep:
  assumes "c \<notin> set t"
  shows "lastIndexOf (n @ c # t) c = int (length n)"
proof -
  have "c \<notin> set (rev t)" using assms by simp
  then have "takeWhile (\<lambda>x. x \<noteq> c) (rev t @ c # rev n) = rev t"
    by (rule takeWhile_sep)
  then have "takeWhile (\<lambda>x. x \<noteq> c) (rev (n @ c # t)) = rev t" by simp
  then show ?thesis by (simp add: lastIndexOf_def)
qed

lemma major_of_version:
  assumes "CHR ''.'' \<notin> set major" and "rest = [] \<or> startsWith rest ''.''"
  shows "hd (split (major @ rest) CHR ''.'') = major"
proof (cases rest)
  case Nil
  with assms show ?thesis by (simp add: hd_split takeWhile_nosep)
next
  case (Cons d t)
  with assms have "d = CHR ''.''" by (simp add: startsWith_def)
  with Cons assms show ?thesis by (simp add: hd_split takeWhile_sep)
qed

lemma versionAliases_entry:
  assumes "lookup versionAliases k = Some (JString full)"
  shows "full \<noteq> [] \<and>
         (\<exists>n major. k = n @ CHR ''@'' # major \<and> n \<noteq> [] \<and> CHR ''@'' \<notin> set major
            \<and> CHR ''.'' \<notin> set major)"
proof -
  let ?i = "nat (lastIndexOf k CHR ''@'')"
  from assms have "full \<noteq> [] \<and> k = take ?i k @ CHR ''@'' # drop (Suc ?i) k \<and> take ?i k \<noteq> []
      \<and> CHR ''@'' \<notin> set (drop (Suc ?i) k) \<and> CHR ''.'' \<notin> set (drop (Suc ?i) k)"
    by (auto simp: lookup_def own_def versionAliases_def lastIndexOf_def split: if_splits option.splits)
  then show ?thesis by blast
qed

lemma alias_branch_hit:
  assumes al: "lookup versionAliases aliasKey = Some (JString fullKey)"
    and v: "lookup depMap fullKey = Some (JString v)" "v \<noteq> []"
    and rest: "CHR ''@'' \<notin> set rest" "rest = [] \<or> startsWith rest ''.''"
  shows "alias_branch depMap (aliasKey @ rest) = Some (JString v)"
proof -
  from versionAliases_entry [OF al] obtain n major where
    k: "aliasKey = n @ CHR ''@'' # major" and n: "n \<noteq> []"
    and m: "CHR ''@'' \<notin> set major" "CHR ''.'' \<notin> set major" and f: "fullKey \<noteq> []"
    by blast
  let ?s = "n @ CHR ''@'' # (major @ rest)"
  have s: "aliasKey @ rest = ?s" using k by simp
  have at: "lastIndexOf ?s CHR ''@'' = int (length n)"
    using m(1) rest(1) by (intro lastIndexOf_sep) simp
  have pos: "lastIndexOf ?s CHR ''@'' > 0" using at n by simp
  have nm: "substring ?s 0 (nat (lastIndexOf ?s CHR ''@'')) = n"
    by (simp add: at substring_def)
  have ver: "substring_from ?s (nat (lastIndexOf ?s CHR ''@'') + 1) = major @ rest"
    by (simp add: at substring_from_def)
  have mj: "hd (split (major @ rest) CHR ''.'') = major"
    using m(2) rest(2) by (rule major_of_version)
  have key: "n @ ''@'' @ major = aliasKey" using k by simp
  have "alias_branch depMap ?s = Some (JString v)"
    unfolding alias_branch_def Let_def nm ver mj key
    using pos al v f by (simp add: truthy_def)
  then show ?thesis by (simp only: s)
qed

lemma inline_alias_hit:
  assumes "lookup versionAliases aliasKey = Some (JString fullKey)"
    and "lookup depMap fullKey = Some (JString v)" and "v \<noteq> []"
    and "CHR ''@'' \<notin> set rest" and "rest = [] \<or> startsWith rest ''.''"
    and "\<not> truthy (lookup depMap (aliasKey @ rest))"
  shows "inline_findLocalPath depMap (aliasKey @ rest) = Some (JString v)"
  using alias_branch_hit [OF assms(1-5)] assms(6) by (simp add: inline_findLocalPath_def)

text \<open>
  Claim C2. Direct lookup comes first, so a specifier that is itself a key with a
  non-empty value resolves to that key's value, not to the alias target. Otherwise, for
  an entry \<open>aliasKey -> fullKey\<close> of the alias table whose \<open>fullKey\<close> has a non-empty value
  in the dependency map, the inline resolver maps \<open>aliasKey\<close>, and \<open>aliasKey\<close> followed by
  \<open>.\<close> and any text without \<open>@\<close>, to the value of \<open>fullKey\<close>.
\<close>

theorem alias_resolves_to_full_version:
  assumes "lookup versionAliases aliasKey = Some (JString fullKey)"
    and "lookup depMap fullKey = Some (JString v)" and "v \<noteq> []"
    and "CHR ''@'' \<notin> set rest" and "rest = [] \<or> startsWith rest ''.''"
    and "\<not> truthy (lookup depMap (aliasKey @ rest))"
  shows "inline_findLocalPath depMap (aliasKey @ rest) = Some (JString v)"
  using assms by (rule inline_alias_hit)

theorem alias_resolves_to_full_version_witness:
  "lookup versionAliases ''d3@7'' = Some (JString ''d3@7.8.5'')
   \<and> lookup [(''d3@7.8.5'', ''libs/d3@7.8.5/d3.min.js'')] ''d3@7.8.5''
       = Some (JString ''libs/d3@7.8.5/d3.min.js'')
   \<and> \<not> truthy (lookup [(''d3@7.8.5'', ''libs/d3@7.8.5/d3.min.js'')] ''d3@7'')
   \<and> inline_findLocalPath [(''d3@7.8.5'', ''libs/d3@7.8.5/d3.min.js'')] ''d3@7''
       = Some (JString ''libs/d3@7.8.5/d3.min.js'')
   \<and> \<not> truthy (lookup [(''d3@7.8.5'', ''libs/d3@7.8.5/d3.min.js'')] ''d3@7.2.1'')
   \<and> inline_findLocalPath [(''d3@7.8.5'', ''libs/d3@7.8.5/d3.min.js'')] ''d3@7.2.1''
       = Some (JString ''libs/d3@7.8.5/d3.min.js'')"
proof -
  let ?m = "[(''d3@7.8.5'', ''libs/d3@7.8.5/d3.min.js'')]"
  have a: "lookup versionAliases ''d3@7'' = Some (JString ''d3@7.8.5'')"
    by (simp add: lookup_def own_def versionAliases_def)
  have b: "lookup ?m ''d3@7.8.5'' = Some (JString ''libs/d3@7.8.5/d3.min.js'')"
    by (simp add: lookup_def own_def)
  have c: "''libs/d3@7.8.5/d3.min.js'' \<noteq> []" by simp
  have d0: "\<not> truthy (lookup ?m (''d3@7'' @ []))" by (simp add: lookup_def own_def inherited_def Object_prototype_names_def truthy_def)
  have d1: "\<not> truthy (lookup ?m (''d3@7'' @ ''.2.1''))" by (simp add: lookup_def own_def inherited_def Object_prototype_names_def truthy_def)
  have e1: "CHR ''@'' \<notin> set ''.2.1''" "''.2.1'' = [] \<or> startsWith ''.2.1'' ''.''"
    by (simp_all add: startsWith_def)
  have r0: "inline_findLocalPath ?m (''d3@7'' @ []) = Some (JString ''libs/d3@7.8.5/d3.min.js'')"
    using alias_resolves_to_full_version [OF a b c _ _ d0] by simp
  have r1: "inline_findLocalPath ?m (''d3@7'' @ ''.2.1'') = Some (JString ''libs/d3@7.8.5/d3.min.js'')"
    using alias_resolves_to_full_version [OF a b c e1 d1] .
  from a b d0 d1 r0 r1 show ?thesis by simp
qed

theorem exact_key_shadows_alias_counterexample:
  "lookup versionAliases ''d3@7'' = Some (JString ''d3@7.8.5'')
   \<and> lookup [(''d3@7.8.5'', ''libs/d3@7.8.5/d3.min.js''), (''d3@7.1.0'', ''libs/d3@7.1.0/d3.min.js'')]
        ''d3@7.8.5'' = Some (JString ''libs/d3@7.8.5/d3.min.js'')
   \<and> inline_findLocalPath
        [(''d3@7.8.5'', ''libs/d3@7.8.5/d3.min.js''), (''d3@7.1.0'', ''libs/d3@7.1.0/d3.min.js'')]
        ''d3@7.1.0'' = Some (JString ''libs/d3@7.1.0/d3.min.js'')"
  by (simp add: lookup_def own_def versionAliases_def inline_findLocalPath_def truthy_def)

text \<open>
  Claim C10. A specifier \<open>aliasKey.minor/subpath\<close> that is itself a key with a non-empty
  value resolves to that key's value. Otherwise, when neither \<open>minor\<close> nor \<open>subpath\<close>
  holds an \<open>@\<close> and the aliased key has a non-empty value, the inline resolver returns
  the value of the aliased base package whatever the subpath is.
\<close>

theorem alias_discards_subpath:
  assumes "lookup versionAliases aliasKey = Some (JString fullKey)"
    and "lookup depMap fullKey = Some (JString v)" and "v \<noteq> []"
    and "CHR ''@'' \<notin> set minor" and "CHR ''@'' \<notin> set subpath"
    and "\<not> truthy (lookup depMap (aliasKey @ ''.'' @ minor @ ''/'' @ subpath))"
  shows "inline_findLocalPath depMap (aliasKey @ ''.'' @ minor @ ''/'' @ subpath) = Some (JString v)"
proof -
  let ?rest = "''.'' @ minor @ ''/'' @ subpath"
  have "CHR ''@'' \<notin> set ?rest" using assms(4,5) by simp
  moreover have "?rest = [] \<or> startsWith ?rest ''.''" by (simp add: startsWith_def)
  ultimately show ?thesis using assms(1-3,6) inline_alias_hit by blast
qed

theorem alias_discards_subpath_witness:
  "lookup versionAliases ''d3@7'' = Some (JString ''d3@7.8.5'')
   \<and> lookup [(''d3@7.8.5'', ''libs/d3@7.8.5/d3.min.js'')] ''d3@7.8.5''
       = Some (JString ''libs/d3@7.8.5/d3.min.js'')
   \<and> \<not> truthy (lookup [(''d3@7.8.5'', ''libs/d3@7.8.5/d3.min.js'')] ''d3@7.1/dist/file.js'')
   \<and> inline_findLocalPath [(''d3@7.8.5'', ''libs/d3@7.8.5/d3.min.js'')] ''d3@7.1/dist/file.js''
       = Some (JString ''libs/d3@7.8.5/d3.min.js'')"
proof -
  let ?m = "[(''d3@7.8.5'', ''libs/d3@7.8.5/d3.min.js'')]"
  have a: "lookup versionAliases ''d3@7'' = Some (JString ''d3@7.8.5'')"
    by (simp add: lookup_def own_def versionAliases_def)
  have b: "lookup ?m ''d3@7.8.5'' = Some (JString ''libs/d3@7.8.5/d3.min.js'')"
    by (simp add: lookup_def own_def)
  have c: "''libs/d3@7.8.5/d3.min.js'' \<noteq> []" by simp
  have d: "\<not> truthy (lookup ?m (''d3@7'' @ ''.'' @ ''1'' @ ''/'' @ ''dist/file.js''))"
    by (simp add: lookup_def own_def inherited_def Object_prototype_names_def truthy_def)
  have e: "CHR ''@'' \<notin> set ''1''" "CHR ''@'' \<notin> set ''dist/file.js''" by simp_all
  have "inline_findLocalPath ?m (''d3@7'' @ ''.'' @ ''1'' @ ''/'' @ ''dist/file.js'')
          = Some (JString ''libs/d3@7.8.5/d3.min.js'')"
    using alias_discards_subpath [OF a b c e d] .
  with a b d show ?thesis by simp
qed

theorem exact_subpath_key_counterexample:
  "lookup versionAliases ''d3@7'' = Some (JString ''d3@7.8.5'')
   \<and> lookup [(''d3@7.8.5'', ''libs/d3@7.8.5/d3.min.js''),
              (''d3@7.8.5/dist/d3.js'', ''libs/d3@7.8.5/dist/d3.js'')]
        ''d3@7.8.5'' = Some (JString ''libs/d3@7.8.5/d3.min.js'')
   \<and> inline_findLocalPath
        [(''d3@7.8.5'', ''libs/d3@7.8.5/d3.min.js''),
         (''d3@7.8.5/dist/d3.js'', ''libs/d3@7.8.5/dist/d3.js'')]
        ''d3@7.8.5/dist/d3.js'' = Some (JString ''libs/d3@7.8.5/dist/d3.js'')"
  by (simp add: lookup_def own_def versionAliases_def inline_findLocalPath_def truthy_def)


section \<open>The order of the lookups in the two resolvers\<close>



























end
